theory Spec2Isabelle
  imports Main
begin

section \<open>EntityRefLink.tsx: data model\<close>

text \<open>
  The component is TypeScript/React. Values that JavaScript can leave \<open>undefined\<close>
  (optional fields, \<open>useAsyncFn\<close>'s \<open>value\<close> and \<open>error\<close>) are \<open>option\<close>s, a thrown
  exception is the \<open>Inl\<close> of a sum, and a rendered JSX tree is a datatype of elements.
  Strings are Isabelle strings; the characters the component inspects are ASCII.
\<close>

datatype js_error =
    Error (message: string)
  | ParseError (message: string)
  | TypeError (message: string)

text \<open>\<open>CompoundEntityRef\<close>: all three fields are required strings.\<close>

record compound_ref =
  ref_kind :: string
  ref_namespace :: string
  ref_name :: string

text \<open>
  \<open>Entity\<close>, as far as the component reads it: \<open>kind\<close>, \<open>metadata.{namespace, name,
  description, tags}\<close> and \<open>spec.{type, profile.email}\<close>. Only \<open>kind\<close> and
  \<open>metadata.name\<close> are required by the type.
\<close>

record profile_t =
  email :: "string option"

record spec_t =
  spec_type :: "string option"
  profile :: "profile_t option"

record metadata_t =
  namespace :: "string option"
  name :: string
  description :: "string option"
  tags :: "string list option"

record entity =
  kind :: string
  metadata :: metadata_t
  spec :: "spec_t option"

text \<open>
  The prop \<open>entityRef: Entity | CompoundEntityRef | string\<close>. The source tells the three
  apart with \<open>typeof entityRef === 'string'\<close> and \<open>'metadata' in entityRef\<close>; the
  constructors carry that discriminant.
\<close>

datatype entity_ref_prop =
    RefString string
  | RefEntity entity
  | RefCompound compound_ref

section \<open>Imported names\<close>

text \<open>
  Modelled from the spec: the constant \<open>DEFAULT_NAMESPACE\<close> is imported from
  \<open>@backstage/catalog-model\<close>, which is not among the sources; the spec gives the
  default-namespace sentinel as "default".
\<close>

definition DEFAULT_NAMESPACE :: string where
  "DEFAULT_NAMESPACE = ''default''"

text \<open>
  \<open>String.prototype.toLocaleLowerCase('en-US')\<close> on ASCII text: the letters A to Z go
  to a to z, every other character is kept.
\<close>

definition lowerCaseChar :: "char \<Rightarrow> char" where
  "lowerCaseChar c =
     (case map_of (zip ''ABCDEFGHIJKLMNOPQRSTUVWXYZ'' ''abcdefghijklmnopqrstuvwxyz'') c of
        Some l \<Rightarrow> l
      | None \<Rightarrow> c)"

definition toLocaleLowerCase :: "string \<Rightarrow> string" where
  "toLocaleLowerCase s = map lowerCaseChar s"

text \<open>
  Modelled from the spec: \<open>parseEntityRef\<close> is imported from \<open>@backstage/catalog-model\<close>,
  which is not among the sources. The spec says it parses a reference string into
  \<open>{kind, namespace, name}\<close>, that the well-formed strings have the form \<open>k:ns/name\<close>, and
  that it fails with a ParseError on a malformed string. Here the kind is the text before
  the first colon, the namespace the text between that colon and the next slash, the name
  the rest; a string with a part missing or empty, or with a further colon or slash, is
  malformed. The component below takes its parser as a parameter, so this definition
  only supplies concrete instances.
\<close>

definition parseEntityRef :: "string \<Rightarrow> js_error + compound_ref" where
  "parseEntityRef s =
     (let k = takeWhile (\<lambda>c. c \<noteq> CHR '':'') s;
          r = drop (Suc (length k)) s;
          ns = takeWhile (\<lambda>c. c \<noteq> CHR ''/'') r;
          n = drop (Suc (length ns)) r
      in if length k < length s \<and> length ns < length r
            \<and> k \<noteq> [] \<and> ns \<noteq> [] \<and> n \<noteq> []
            \<and> CHR ''/'' \<notin> set k \<and> CHR '':'' \<notin> set ns
            \<and> CHR '':'' \<notin> set n \<and> CHR ''/'' \<notin> set n
         then Inr \<lparr>ref_kind = k, ref_namespace = ns, ref_name = n\<rparr>
         else Inl (ParseError s))"

section \<open>EntityRefLink: from the prop to the route parameters\<close>

text \<open>
  Lines 203 to 220: the three branches that fill \<open>kind\<close>, \<open>namespace\<close> and \<open>name\<close>.
  \<open>parseEntityRef\<close> is called with no \<open>try\<close> around it, so what it throws leaves the
  component. Only the entity branch can leave \<open>namespace\<close> undefined.
\<close>

definition EntityRefLink_fields ::
  "(string \<Rightarrow> js_error + compound_ref) \<Rightarrow> entity_ref_prop
     \<Rightarrow> js_error + (string \<times> string option \<times> string)" where
  "EntityRefLink_fields parse entityRef =
     (case entityRef of
        RefString s \<Rightarrow>
          (case parse s of
             Inl e \<Rightarrow> Inl e
           | Inr parsed \<Rightarrow>
               Inr (ref_kind parsed, Some (ref_namespace parsed), ref_name parsed))
      | RefEntity e \<Rightarrow> Inr (kind e, namespace (metadata e), name (metadata e))
      | RefCompound r \<Rightarrow> Inr (ref_kind r, Some (ref_namespace r), ref_name r))"

text \<open>
  Lines 222 to 225: \<open>kind.toLocaleLowerCase('en-US')\<close>,
  \<open>namespace?.toLocaleLowerCase('en-US') ?? DEFAULT_NAMESPACE\<close>, and the triple
  \<open>routeParams\<close>. The operator \<open>??\<close> replaces \<open>undefined\<close> and \<open>null\<close> only.
\<close>

definition nullish_or :: "'a option \<Rightarrow> 'a \<Rightarrow> 'a" where
  "nullish_or v d = (case v of None \<Rightarrow> d | Some x \<Rightarrow> x)"

definition routeParams ::
  "(string \<Rightarrow> js_error + compound_ref) \<Rightarrow> entity_ref_prop \<Rightarrow> js_error + compound_ref" where
  "routeParams parse entityRef =
     (case EntityRefLink_fields parse entityRef of
        Inl e \<Rightarrow> Inl e
      | Inr (k, ns, n) \<Rightarrow>
          Inr \<lparr>ref_kind = toLocaleLowerCase k,
               ref_namespace = nullish_or (map_option toLocaleLowerCase ns) DEFAULT_NAMESPACE,
               ref_name = n\<rparr>)"

section \<open>PeekAheadPopover: what is rendered\<close>

text \<open>
  The elements of the popover's tree. Styling props are left out; a \<open>Button\<close> carries its
  \<open>href\<close>, a \<open>Link\<close> the route parameters that \<open>entityRoute\<close> turns into its target, a
  \<open>Tooltip\<close> its title and its child, a \<open>Skeleton\<close> its width.
\<close>

datatype element =
    Progress
  | Typography "string option"
  | Alert string
  | Chip string
  | Tooltip string element
  | Skeleton "string option"
  | Button string
  | Link compound_ref
  | TextNode string
  | Box "element list"
  | CardContent "element list"
  | CardActions "element list"
  | Card "element list"
  | HoverPopover bool "element list"

text \<open>
  What a JSX expression \<open>{a && b && <X/>}\<close> can evaluate to. \<open>a && b\<close> is \<open>a\<close> when \<open>a\<close> is
  falsy and \<open>b\<close> otherwise; \<open>undefined\<close>, \<open>false\<close>, \<open>0\<close> and the empty string are falsy.
  React renders nothing for booleans, \<open>undefined\<close> and the empty string, a text node for
  any number (also \<open>0\<close>) and for a non-empty string, and an element as itself.
\<close>

datatype jsx_value =
    JsUndefined
  | JsBool bool
  | JsNumber nat
  | JsString string
  | JsElement element

fun truthy :: "jsx_value \<Rightarrow> bool" where
  "truthy JsUndefined = False"
| "truthy (JsBool b) = b"
| "truthy (JsNumber n) = (n \<noteq> 0)"
| "truthy (JsString s) = (s \<noteq> [])"
| "truthy (JsElement x) = True"

definition js_and :: "jsx_value \<Rightarrow> jsx_value \<Rightarrow> jsx_value" where
  "js_and a b = (if truthy a then b else a)"

fun string_of_nat :: "nat \<Rightarrow> string" where
  "string_of_nat n =
     (if n < 10 then [''0123456789'' ! n]
      else string_of_nat (n div 10) @ [''0123456789'' ! (n mod 10)])"

fun renderChild :: "jsx_value \<Rightarrow> element list" where
  "renderChild JsUndefined = []"
| "renderChild (JsBool b) = []"
| "renderChild (JsNumber n) = [TextNode (string_of_nat n)]"
| "renderChild (JsString s) = (if s = [] then [] else [TextNode s])"
| "renderChild (JsElement x) = [x]"

definition maxTagChips :: nat where
  "maxTagChips = 4"

text \<open>
  Line 145: \<open>(entity.metadata.tags || []).slice(0, maxTagChips).map(tag => <Chip label={tag}/>)\<close>.
\<close>

definition tagChips :: "entity \<Rightarrow> element list" where
  "tagChips e = map Chip (take maxTagChips (nullish_or (tags (metadata e)) []))"

text \<open>
  Lines 148 to 153: \<open>tags?.length && tags?.length > maxTagChips && (<Tooltip ..><Chip
  label="..."/></Tooltip>)\<close>. \<open>tags?.length\<close> is \<open>undefined\<close> without a tag list and the
  number of tags otherwise.
\<close>

definition tagsLength :: "entity \<Rightarrow> jsx_value" where
  "tagsLength e = (case tags (metadata e) of None \<Rightarrow> JsUndefined | Some ts \<Rightarrow> JsNumber (length ts))"

definition overflowChip :: "entity \<Rightarrow> jsx_value" where
  "overflowChip e =
     js_and
       (js_and (tagsLength e)
          (JsBool (case tags (metadata e) of None \<Rightarrow> False | Some ts \<Rightarrow> length ts > maxTagChips)))
       (JsElement (Tooltip ''Drill into the entity to see all of the tags.'' (Chip ''...'')))"

definition chipBox :: "entity \<Rightarrow> element list" where
  "chipBox e = tagChips e @ renderChild (overflowChip e)"

text \<open>
  Modelled from the spec: \<open>isUserEntity\<close> and \<open>isGroupEntity\<close> are imported from
  \<open>@backstage/catalog-model\<close>, which is not among the sources. The spec calls them
  classification predicates on the entity's kind (a person, a group); the kind is compared
  without regard to case.
\<close>

definition isUserEntity :: "entity \<Rightarrow> bool" where
  "isUserEntity e = (toLocaleLowerCase (kind e) = ''user'')"

definition isGroupEntity :: "entity \<Rightarrow> bool" where
  "isGroupEntity e = (toLocaleLowerCase (kind e) = ''group'')"

text \<open>
  Lines 166 to 178: \<open>entity && (isUserEntity(entity) || isGroupEntity(entity)) &&
  entity.spec.profile?.email && (<Tooltip title={`Email ${email}`}><Button
  href={`mailto:${email}`}/></Tooltip>)\<close>. The operands are evaluated from the left and
  only as far as needed. \<open>entity.spec.profile\<close> reads \<open>spec\<close> without \<open>?.\<close>, so a user or
  group entity without a \<open>spec\<close> makes the render throw a TypeError.
\<close>

definition profileEmail :: "spec_t \<Rightarrow> jsx_value" where
  "profileEmail sp =
     (case profile sp of
        None \<Rightarrow> JsUndefined
      | Some p \<Rightarrow> (case email p of None \<Rightarrow> JsUndefined | Some m \<Rightarrow> JsString m))"

definition emailButton :: "jsx_value \<Rightarrow> jsx_value" where
  "emailButton m =
     (case m of
        JsString a \<Rightarrow> JsElement (Tooltip (''Email '' @ a) (Button (''mailto:'' @ a)))
      | _ \<Rightarrow> JsUndefined)"

definition emailAction :: "entity option \<Rightarrow> js_error + jsx_value" where
  "emailAction ent =
     (case ent of
        None \<Rightarrow> Inr JsUndefined
      | Some e \<Rightarrow>
          if \<not> (isUserEntity e \<or> isGroupEntity e) then Inr (JsBool False)
          else (case spec e of
                  None \<Rightarrow> Inl (TypeError ''Cannot read properties of undefined'')
                | Some sp \<Rightarrow> Inr (js_and (profileEmail sp) (emailButton (profileEmail sp)))))"

text \<open>
  The state that \<open>useAsyncFn\<close> keeps: \<open>{loading, error, value}\<close>, where the component
  names the value \<open>entity\<close>.
\<close>

record async_state =
  loading :: bool
  error :: "js_error option"
  "value" :: "entity option"

text \<open>Line 136: \<open>error && <Alert severity="warning">{error.message}</Alert>\<close>.\<close>

definition errorAlert :: "js_error option \<Rightarrow> jsx_value" where
  "errorAlert err = (case err of None \<Rightarrow> JsUndefined | Some e \<Rightarrow> JsElement (Alert (message e)))"

text \<open>Lines 131 to 164: the card's content.\<close>

definition cardContent :: "compound_ref \<Rightarrow> async_state \<Rightarrow> element" where
  "cardContent entityRef st =
     CardContent
       ([Typography (Some (ref_namespace entityRef)), Typography (Some (ref_name entityRef))]
        @ renderChild (errorAlert (error st))
        @ (case value st of
             Some e \<Rightarrow>
               [Typography (Some (kind e)),
                Typography (description (metadata e)),
                Typography (case spec e of None \<Rightarrow> None | Some sp \<Rightarrow> spec_type sp),
                Box (chipBox e)]
           | None \<Rightarrow>
               [Skeleton (Some ''30%''), Skeleton None, Skeleton (Some ''50%''),
                Skeleton (Some ''20%'')]))"

text \<open>Lines 165 to 184: the action row, the mail action first, then "Show details".\<close>

definition cardActions :: "compound_ref \<Rightarrow> async_state \<Rightarrow> js_error + element" where
  "cardActions entityRef st =
     (case emailAction (value st) of
        Inl e \<Rightarrow> Inl e
      | Inr mail \<Rightarrow>
          Inr (CardActions (renderChild mail @ [Tooltip ''Show details'' (Link entityRef)])))"

text \<open>
  Lines 114 to 187: the popover. The first argument is \<open>popupState.isOpen\<close>. The result is
  \<open>Inl\<close> when evaluating the JSX throws.
\<close>

definition PeekAheadPopover :: "bool \<Rightarrow> compound_ref \<Rightarrow> async_state \<Rightarrow> js_error + element" where
  "PeekAheadPopover isOpen entityRef st =
     (case cardActions entityRef st of
        Inl e \<Rightarrow> Inl e
      | Inr actions \<Rightarrow>
          Inr (HoverPopover isOpen
                [Card (renderChild (js_and (JsBool (loading st)) (JsElement Progress))
                       @ [cardContent entityRef st, actions])]))"

text \<open>
  Lines 194 to 249: \<open>EntityRefLink\<close> renders the link to the entity's route and the popover
  for the normalized reference. The link's text (children, title or the humanized
  reference) is left out of the tree.
\<close>

definition EntityRefLink ::
  "(string \<Rightarrow> js_error + compound_ref) \<Rightarrow> entity_ref_prop \<Rightarrow> bool \<Rightarrow> async_state
     \<Rightarrow> js_error + element list" where
  "EntityRefLink parse entityRef isOpen st =
     (case routeParams parse entityRef of
        Inl e \<Rightarrow> Inl e
      | Inr params \<Rightarrow>
          (case PeekAheadPopover isOpen params st of
             Inl e \<Rightarrow> Inl e
           | Inr popover \<Rightarrow> Inr [Link params, popover]))"

section \<open>PeekAheadPopover: the fetch on hover\<close>

text \<open>
  \<open>apiHolder.get(catalogApiRef)\<close> is a catalog client or \<open>undefined\<close>. Of the client only
  \<open>getEntityByRef\<close> is used: its promise rejects with an error (\<open>Inl\<close>) or resolves with
  an entity or with \<open>undefined\<close> (\<open>Inr\<close>).
\<close>

type_synonym catalog_api = "compound_ref \<Rightarrow> js_error + entity option"

text \<open>
  Lines 96 to 106, the async function handed to \<open>useAsyncFn\<close>: what its promise settles
  to. A \<open>throw\<close> rejects the promise.
\<close>

definition loadEntity :: "catalog_api option \<Rightarrow> compound_ref \<Rightarrow> js_error + entity option" where
  "loadEntity catalogApi entityRef =
     (case catalogApi of
        None \<Rightarrow> Inr None
      | Some getEntityByRef \<Rightarrow>
          (case getEntityByRef entityRef of
             Inl e \<Rightarrow> Inl e
           | Inr None \<Rightarrow> Inl (Error (ref_name entityRef @ '' was not found''))
           | Inr (Some retrievedEntity) \<Rightarrow> Inr (Some retrievedEntity)))"

text \<open>
  A mounted popover: \<open>popupState.isOpen\<close>, the state and the call counter that
  \<open>useAsyncFn\<close> keeps, and the promises in flight, each with the call id it was started
  under and what it will settle to. \<open>lookups\<close> counts the calls of \<open>getEntityByRef\<close> and
  \<open>dispatches\<close> the calls of \<open>load\<close>; the component does not read them.
\<close>

record popover =
  isOpen :: bool
  state :: async_state
  lastCallId :: nat
  pending :: "(nat \<times> (js_error + entity option)) list"
  lookups :: nat
  dispatches :: nat

definition mount :: popover where
  "mount = \<lparr>isOpen = False,
            state = \<lparr>loading = False, error = None, value = None\<rparr>,
            lastCallId = 0, pending = [], lookups = 0, dispatches = 0\<rparr>"

text \<open>
  The callback \<open>load\<close> that \<open>useAsyncFn\<close> (react-use) returns: it takes the next call id,
  sets \<open>loading\<close> unless it is set, keeping \<open>value\<close> and \<open>error\<close>, and starts the async
  function.
\<close>

definition load :: "catalog_api option \<Rightarrow> compound_ref \<Rightarrow> popover \<Rightarrow> popover" where
  "load catalogApi entityRef s =
     (let callId = Suc (lastCallId s) in
      s\<lparr>lastCallId := callId,
        state := (if loading (state s) then state s else (state s)\<lparr>loading := True\<rparr>),
        pending := pending s @ [(callId, loadEntity catalogApi entityRef)],
        lookups := lookups s + (case catalogApi of None \<Rightarrow> 0 | Some getEntityByRef \<Rightarrow> 1),
        dispatches := Suc (dispatches s)\<rparr>)"

text \<open>
  The promise of call \<open>callId\<close> settles. \<open>useAsyncFn\<close> handles both outcomes: when the
  call is still the latest one it replaces the state by \<open>{value, loading: false}\<close> or by
  \<open>{error, loading: false}\<close>; the rejection is consumed there and not thrown again.
\<close>

definition settle :: "nat \<Rightarrow> popover \<Rightarrow> popover" where
  "settle callId s =
     (case map_of (pending s) callId of
        None \<Rightarrow> s
      | Some outcome \<Rightarrow>
          (let s' = s\<lparr>pending := filter (\<lambda>p. fst p \<noteq> callId) (pending s)\<rparr> in
           if callId = lastCallId s
           then s'\<lparr>state :=
                     (case outcome of
                        Inr v \<Rightarrow> \<lparr>loading = False, error = None, value = v\<rparr>
                      | Inl e \<Rightarrow> \<lparr>loading = False, error = Some e, value = None\<rparr>)\<rparr>
           else s'))"

text \<open>
  Lines 108 to 112, the effect: \<open>if (popupState.isOpen && !entity && !error && !loading)
  load()\<close>. An entity and an error are objects, so each is falsy only when undefined.
\<close>

definition fetchGuard :: "popover \<Rightarrow> bool" where
  "fetchGuard s =
     (isOpen s \<and> value (state s) = None \<and> error (state s) = None \<and> \<not> loading (state s))"

definition effect :: "catalog_api option \<Rightarrow> compound_ref \<Rightarrow> popover \<Rightarrow> popover" where
  "effect catalogApi entityRef s = (if fetchGuard s then load catalogApi entityRef s else s)"

text \<open>
  What can happen to a mounted popover: the pointer enters or leaves the link
  (\<open>bindHover\<close> opens and closes the popup), a render runs the effect on the current
  state, a promise settles. The effect's dependency list only makes React skip some
  runs; here a run may come at any time. The catalog client and the reference are those
  of the mount; unmounting ends the sequence.
\<close>

datatype event =
    SetOpen bool
  | Render
  | Settle nat

fun step :: "catalog_api option \<Rightarrow> compound_ref \<Rightarrow> event \<Rightarrow> popover \<Rightarrow> popover" where
  "step catalogApi entityRef (SetOpen b) s = s\<lparr>isOpen := b\<rparr>"
| "step catalogApi entityRef Render s = effect catalogApi entityRef s"
| "step catalogApi entityRef (Settle callId) s = settle callId s"

fun run :: "catalog_api option \<Rightarrow> compound_ref \<Rightarrow> event list \<Rightarrow> popover \<Rightarrow> popover" where
  "run catalogApi entityRef [] s = s"
| "run catalogApi entityRef (ev # evs) s =
     run catalogApi entityRef evs (step catalogApi entityRef ev s)"

text \<open>\<open>n\<close> rounds of: a render runs the effect, then the promise it started settles.\<close>

fun renderCycles :: "nat \<Rightarrow> nat \<Rightarrow> event list" where
  "renderCycles callId 0 = []"
| "renderCycles callId (Suc n) = Render # Settle (Suc callId) # renderCycles (Suc callId) n"

text \<open>
  What holds of every state a mounted popover reaches: each promise in flight settles to
  what the async function computes; with a catalog client, \<open>getEntityByRef\<close> was called
  at most once, nothing is in flight before the call, and after it the state is loading
  or holds an entity or an error; without a client no lookup was made and neither an
  entity nor an error is held.
\<close>

definition fetch_invariant :: "catalog_api option \<Rightarrow> compound_ref \<Rightarrow> popover \<Rightarrow> bool" where
  "fetch_invariant catalogApi entityRef s =
     ((\<forall>p \<in> set (pending s). snd p = loadEntity catalogApi entityRef)
      \<and> (case catalogApi of
           None \<Rightarrow> lookups s = 0 \<and> value (state s) = None \<and> error (state s) = None
         | Some getEntityByRef \<Rightarrow>
             (lookups s = 0 \<and> pending s = [])
             \<or> (lookups s = 1
                \<and> (loading (state s) \<or> value (state s) \<noteq> None \<or> error (state s) \<noteq> None))))"

text \<open>An entity or an error is held: the preview is Loaded or Failed.\<close>

definition cached :: "popover \<Rightarrow> bool" where
  "cached s = (value (state s) \<noteq> None \<or> error (state s) \<noteq> None)"

text \<open>A chip as line 146 makes them, as opposed to the wrapped overflow chip.\<close>

fun isChip :: "element \<Rightarrow> bool" where
  "isChip (Chip label) = True"
| "isChip x = False"

text \<open>An entity of a given kind, with given tags and profile email, for concrete runs.\<close>

definition sampleEntity :: "string \<Rightarrow> string list option \<Rightarrow> string option \<Rightarrow> entity" where
  "sampleEntity k ts mail =
     \<lparr>kind = k,
      metadata = \<lparr>namespace = Some ''default'', name = ''sample'', description = None, tags = ts\<rparr>,
      spec = Some \<lparr>spec_type = None, profile = Some \<lparr>email = mail\<rparr>\<rparr>\<rparr>"

definition sampleRef :: compound_ref where
  "sampleRef = \<lparr>ref_kind = ''component'', ref_namespace = ''default'', ref_name = ''missing''\<rparr>"

section \<open>The route parameters\<close>

lemma parseEntityRef_well_formed:
  assumes "k \<noteq> []" "ns \<noteq> []" "n \<noteq> []"
    and "CHR '':'' \<notin> set k" "CHR ''/'' \<notin> set k"
    and "CHR '':'' \<notin> set ns" "CHR ''/'' \<notin> set ns"
    and "CHR '':'' \<notin> set n" "CHR ''/'' \<notin> set n"
  shows "parseEntityRef (k @ '':'' @ ns @ ''/'' @ n)
         = Inr \<lparr>ref_kind = k, ref_namespace = ns, ref_name = n\<rparr>"
proof -
  have k: "takeWhile (\<lambda>c. c \<noteq> CHR '':'') (k @ '':'' @ ns @ ''/'' @ n) = k"
    using assms(4) by (auto simp add: takeWhile_tail)
  have ns: "takeWhile (\<lambda>c. c \<noteq> CHR ''/'') (ns @ ''/'' @ n) = ns"
    using assms(7) by (auto simp add: takeWhile_tail)
  show ?thesis
    unfolding parseEntityRef_def Let_def k using assms ns by simp
qed

lemma routeParams_well_formed_string:
  assumes "k \<noteq> []" "ns \<noteq> []" "n \<noteq> []"
    and "CHR '':'' \<notin> set k" "CHR ''/'' \<notin> set k"
    and "CHR '':'' \<notin> set ns" "CHR ''/'' \<notin> set ns"
    and "CHR '':'' \<notin> set n" "CHR ''/'' \<notin> set n"
  shows "routeParams parseEntityRef (RefString (k @ '':'' @ ns @ ''/'' @ n))
         = Inr \<lparr>ref_kind = toLocaleLowerCase k, ref_namespace = toLocaleLowerCase ns,
                ref_name = n\<rparr>"
  using parseEntityRef_well_formed [OF assms]
  by (simp add: routeParams_def EntityRefLink_fields_def nullish_or_def)

lemma parseEntityRef_sample:
  "parseEntityRef ''Component:Default/MyService''
     = Inr \<lparr>ref_kind = ''Component'', ref_namespace = ''Default'', ref_name = ''MyService''\<rparr>"
  by (simp add: parseEntityRef_def Let_def)

lemma parseEntityRef_malformed: "parseEntityRef ''component:/missing'' = Inl (ParseError ''component:/missing'')"
  by (simp add: parseEntityRef_def Let_def)

text \<open>
  C2, as amended. When the namespace is omitted (undefined), which only an entity's
  metadata allows, the route parameters carry the default namespace "default". A namespace
  given as the empty string is not replaced: \<open>??\<close> keeps it, and the resulting namespace is
  the empty string, for an entity as for a compound reference.
\<close>

theorem namespace_defaulted_only_when_undefined:
  "(namespace (metadata e) = None \<longrightarrow>
      routeParams parse (RefEntity e)
        = Inr \<lparr>ref_kind = toLocaleLowerCase (kind e), ref_namespace = ''default'',
               ref_name = name (metadata e)\<rparr>)
   \<and> (namespace (metadata e) = Some [] \<longrightarrow>
      routeParams parse (RefEntity e)
        = Inr \<lparr>ref_kind = toLocaleLowerCase (kind e), ref_namespace = [],
               ref_name = name (metadata e)\<rparr>)
   \<and> (ref_namespace r = [] \<longrightarrow>
      routeParams parse (RefCompound r)
        = Inr \<lparr>ref_kind = toLocaleLowerCase (ref_kind r), ref_namespace = [],
               ref_name = ref_name r\<rparr>)"
  by (simp add: routeParams_def EntityRefLink_fields_def nullish_or_def DEFAULT_NAMESPACE_def
      toLocaleLowerCase_def)

theorem namespace_defaulted_only_when_undefined_witness:
  "routeParams parseEntityRef
     (RefEntity \<lparr>kind = ''Component'',
                 metadata = \<lparr>namespace = None, name = ''website'', description = None,
                             tags = None\<rparr>,
                 spec = None\<rparr>)
     = Inr \<lparr>ref_kind = ''component'', ref_namespace = ''default'', ref_name = ''website''\<rparr>"
  using namespace_defaulted_only_when_undefined
    [of "\<lparr>kind = ''Component'',
          metadata = \<lparr>namespace = None, name = ''website'', description = None, tags = None\<rparr>,
          spec = None\<rparr>" parseEntityRef]
  by (simp add: toLocaleLowerCase_def lowerCaseChar_def)

text \<open>
  C2 as stated fails: a compound reference whose namespace is the empty string keeps the
  empty namespace, which is not "default".
\<close>

theorem empty_namespace_not_defaulted:
  "routeParams parseEntityRef
     (RefCompound \<lparr>ref_kind = ''Component'', ref_namespace = [], ref_name = ''website''\<rparr>)
     = Inr \<lparr>ref_kind = ''component'', ref_namespace = [], ref_name = ''website''\<rparr>
   \<and> [] \<noteq> DEFAULT_NAMESPACE"
  by (simp add: routeParams_def EntityRefLink_fields_def nullish_or_def DEFAULT_NAMESPACE_def
      toLocaleLowerCase_def lowerCaseChar_def)

text \<open>
  C3. A reference string that the parser accepts as kind \<open>k\<close>, namespace \<open>ns\<close> and name
  \<open>n\<close> (the well-formed string \<open>k:ns/n\<close>) gives the route parameters with \<open>k\<close> and \<open>ns\<close>
  lower-cased under the fixed locale en-US and \<open>n\<close> exactly as parsed. This holds for
  whatever parser the component is given.
\<close>

theorem string_ref_lower_cased:
  "parse s = Inr \<lparr>ref_kind = k, ref_namespace = ns, ref_name = n\<rparr> \<Longrightarrow>
   routeParams parse (RefString s)
     = Inr \<lparr>ref_kind = toLocaleLowerCase k, ref_namespace = toLocaleLowerCase ns, ref_name = n\<rparr>"
  by (simp add: routeParams_def EntityRefLink_fields_def nullish_or_def)

theorem string_ref_lower_cased_witness:
  "routeParams parseEntityRef (RefString ''Component:Default/MyService'')
     = Inr \<lparr>ref_kind = ''component'', ref_namespace = ''default'', ref_name = ''MyService''\<rparr>"
  using string_ref_lower_cased
    [of parseEntityRef "''Component:Default/MyService''" "''Component''" "''Default''"
        "''MyService''", OF parseEntityRef_sample]
  by (simp add: toLocaleLowerCase_def lowerCaseChar_def)

text \<open>
  C4. A full entity record with kind \<open>k\<close>, metadata namespace \<open>ns\<close> and metadata name \<open>n\<close>
  gives the same route parameters as the compound reference \<open>{kind: k, namespace: ns,
  name: n}\<close>, whatever else the entity holds.
\<close>

theorem entity_and_compound_ref_agree:
  "routeParams parse
     (RefEntity \<lparr>kind = k,
                 metadata = \<lparr>namespace = Some ns, name = n, description = d, tags = ts\<rparr>,
                 spec = sp\<rparr>)
   = routeParams parse (RefCompound \<lparr>ref_kind = k, ref_namespace = ns, ref_name = n\<rparr>)"
  by (simp add: routeParams_def EntityRefLink_fields_def)

theorem entity_and_compound_ref_agree_witness:
  "routeParams parseEntityRef (RefEntity (sampleEntity ''API'' None None))
   = routeParams parseEntityRef
       (RefCompound \<lparr>ref_kind = ''API'', ref_namespace = ''default'', ref_name = ''sample''\<rparr>)"
  using entity_and_compound_ref_agree
    [of parseEntityRef "''API''" "''default''" "''sample''" None None
        "Some \<lparr>spec_type = None, profile = Some \<lparr>email = None\<rparr>\<rparr>"]
  by (simp add: sampleEntity_def)

section \<open>The fetch: what every reached state satisfies\<close>

lemma loadEntity_client_cases:
  "(\<exists>e. loadEntity (Some f) r = Inl e) \<or> (\<exists>ent. loadEntity (Some f) r = Inr (Some ent))"
  by (auto simp: loadEntity_def split: sum.splits option.splits)

lemma loadEntity_no_client: "loadEntity None r = Inr None"
  by (simp add: loadEntity_def)

lemma fetch_invariant_mount: "fetch_invariant api r mount"
  by (simp add: fetch_invariant_def mount_def split: option.splits)

lemma fetch_invariant_SetOpen:
  "fetch_invariant api r s \<Longrightarrow> fetch_invariant api r (s\<lparr>isOpen := b\<rparr>)"
  by (simp add: fetch_invariant_def split: option.splits)

lemma fetch_invariant_load:
  assumes "fetch_invariant api r s" "fetchGuard s"
  shows "fetch_invariant api r (load api r s)"
  using assms
  by (auto simp: fetch_invariant_def load_def fetchGuard_def Let_def split: option.splits)

lemma fetch_invariant_effect:
  "fetch_invariant api r s \<Longrightarrow> fetch_invariant api r (effect api r s)"
  by (simp add: effect_def fetch_invariant_load)

lemma settle_outcome:
  assumes "fetch_invariant api r s" "map_of (pending s) callId = Some outcome"
  shows "outcome = loadEntity api r"
  using assms by (auto simp: fetch_invariant_def dest!: map_of_SomeD)

lemma fetch_invariant_settle:
  assumes "fetch_invariant api r s"
  shows "fetch_invariant api r (settle callId s)"
proof (cases "map_of (pending s) callId")
  case None
  then show ?thesis using assms by (simp add: settle_def)
next
  case (Some outcome)
  have out: "outcome = loadEntity api r" using settle_outcome [OF assms Some] .
  show ?thesis
  proof (cases api)
    case None
    then show ?thesis
      using assms Some out
      by (auto simp: fetch_invariant_def settle_def Let_def loadEntity_no_client)
  next
    case (Some f)
    have pend: "lookups s = 1" "pending s \<noteq> []"
      using assms \<open>map_of (pending s) callId = Some outcome\<close> Some
      by (auto simp: fetch_invariant_def)
    from loadEntity_client_cases [of f r] show ?thesis
      using assms \<open>map_of (pending s) callId = Some outcome\<close> out Some pend
      by (auto simp: fetch_invariant_def settle_def Let_def)
  qed
qed

lemma fetch_invariant_step:
  "fetch_invariant api r s \<Longrightarrow> fetch_invariant api r (step api r ev s)"
  by (cases ev)
    (simp_all add: fetch_invariant_SetOpen fetch_invariant_effect fetch_invariant_settle)

lemma fetch_invariant_run:
  "fetch_invariant api r s \<Longrightarrow> fetch_invariant api r (run api r evs s)"
  by (induction evs arbitrary: s) (simp_all add: fetch_invariant_step)

lemma fetch_invariant_lookups: "fetch_invariant api r s \<Longrightarrow> lookups s \<le> 1"
  by (auto simp: fetch_invariant_def split: option.splits)

lemma dispatches_step:
  "dispatches (step api r ev s)
     = (if ev = Render \<and> fetchGuard s then Suc (dispatches s) else dispatches s)"
  by (cases ev) (auto simp: effect_def load_def settle_def Let_def split: option.splits)

lemma lookups_step:
  "lookups (step (Some f) r ev s)
     = (if ev = Render \<and> fetchGuard s then Suc (lookups s) else lookups s)"
  by (cases ev) (auto simp: effect_def load_def settle_def Let_def split: option.splits)

lemma cached_step:
  assumes "fetch_invariant api r s" "cached s"
  shows "cached (step api r ev s) \<and> dispatches (step api r ev s) = dispatches s
         \<and> lookups (step api r ev s) = lookups s"
proof (cases ev)
  case (SetOpen b)
  then show ?thesis using assms by (simp add: cached_def)
next
  case Render
  then show ?thesis using assms by (auto simp: cached_def effect_def fetchGuard_def)
next
  case (Settle callId)
  show ?thesis
  proof (cases "map_of (pending s) callId")
    case None
    then show ?thesis using assms Settle by (simp add: settle_def)
  next
    case (Some outcome)
    have out: "outcome = loadEntity api r" using settle_outcome [OF assms(1) Some] .
    obtain f where f: "api = Some f"
      using assms by (cases api) (auto simp: fetch_invariant_def cached_def)
    from loadEntity_client_cases [of f r] show ?thesis
      using assms Settle Some out f
      by (auto simp: settle_def Let_def cached_def)
  qed
qed

lemma cached_run:
  assumes "fetch_invariant api r s" "cached s"
  shows "cached (run api r evs s) \<and> dispatches (run api r evs s) = dispatches s
         \<and> lookups (run api r evs s) = lookups s"
  using assms
proof (induction evs arbitrary: s)
  case Nil
  then show ?case by simp
next
  case (Cons ev evs)
  have st: "cached (step api r ev s)" "dispatches (step api r ev s) = dispatches s"
    "lookups (step api r ev s) = lookups s"
    using cached_step [OF Cons.prems] by simp_all
  have "fetch_invariant api r (step api r ev s)"
    using Cons.prems(1) by (rule fetch_invariant_step)
  from Cons.IH [OF this st(1)] st show ?case by simp
qed

lemma guard_nothing_pending:
  assumes "fetch_invariant (Some f) r s" "fetchGuard s"
  shows "pending s = []"
  using assms by (auto simp: fetch_invariant_def fetchGuard_def)

lemma dispatch_then_settle:
  assumes "pending s = []" "fetchGuard s"
  shows "state (run api r [Render, Settle (Suc (lastCallId s))] s)
         = (case loadEntity api r of
              Inr v \<Rightarrow> \<lparr>loading = False, error = None, value = v\<rparr>
            | Inl e \<Rightarrow> \<lparr>loading = False, error = Some e, value = None\<rparr>)"
  using assms by (simp add: effect_def load_def settle_def Let_def)

lemma no_client_cycles:
  assumes "fetchGuard s" "pending s = []"
  shows "run None r (renderCycles (lastCallId s) n) s
         = s\<lparr>lastCallId := lastCallId s + n, dispatches := dispatches s + n\<rparr>"
  using assms
proof (induction n arbitrary: s)
  case 0
  then show ?case by simp
next
  case (Suc n)
  let ?t = "settle (Suc (lastCallId s)) (effect None r s)"
  have st: "state s = \<lparr>loading = False, error = None, value = None\<rparr>"
    using Suc.prems(1) by (cases "state s") (simp add: fetchGuard_def)
  have t: "?t = s\<lparr>lastCallId := Suc (lastCallId s), dispatches := Suc (dispatches s)\<rparr>"
    using Suc.prems st
    by (simp add: effect_def load_def settle_def Let_def loadEntity_no_client)
  have "fetchGuard ?t" "pending ?t = []" "lastCallId ?t = Suc (lastCallId s)"
    using Suc.prems by (simp_all add: t fetchGuard_def)
  from Suc.IH [OF this(1,2)] this(3) show ?case
    by (simp add: t)
qed

lemmas run_defs =
  mount_def effect_def fetchGuard_def load_def settle_def loadEntity_def Let_def cached_def
  sampleEntity_def sampleRef_def

text \<open>
  C1. From mount on, whatever the sequence of openings, closings, effect runs and
  settling promises, and with or without a catalog client, \<open>getEntityByRef\<close> has been
  called at most once. An event starts a fetch exactly when it is an effect run on a state
  where the popover is open, no entity and no error is held and \<open>loading\<close> is off (with a
  client that is then a lookup call). Once a reached state holds an entity or an error, no
  later sequence of events calls \<open>load\<close> or \<open>getEntityByRef\<close> again.
\<close>

theorem single_lookup_per_mount:
  "lookups (run api r evs mount) \<le> 1
   \<and> dispatches (step api r ev s)
       = (if ev = Render \<and> fetchGuard s then Suc (dispatches s) else dispatches s)
   \<and> lookups (step (Some getEntityByRef) r ev s)
       = (if ev = Render \<and> fetchGuard s then Suc (lookups s) else lookups s)
   \<and> (cached (run api r evs mount) \<longrightarrow>
        dispatches (run api r evs' (run api r evs mount)) = dispatches (run api r evs mount)
        \<and> lookups (run api r evs' (run api r evs mount)) = lookups (run api r evs mount))"
proof -
  have r: "fetch_invariant api r (run api r evs mount)"
    by (rule fetch_invariant_run [OF fetch_invariant_mount])
  show ?thesis
    using fetch_invariant_lookups [OF r] dispatches_step [of api r ev s]
      lookups_step [of getEntityByRef r ev s] cached_run [OF r, of evs']
    by simp
qed

theorem single_lookup_per_mount_witness:
  "cached (run (Some (\<lambda>ref. Inr (Some (sampleEntity ''User'' None None)))) sampleRef
             [SetOpen True, Render, Settle 1, SetOpen False] mount)
   \<and> lookups (run (Some (\<lambda>ref. Inr (Some (sampleEntity ''User'' None None)))) sampleRef
             [SetOpen True, Render, Settle 1, SetOpen False] mount) = 1
   \<and> lookups (run (Some (\<lambda>ref. Inr (Some (sampleEntity ''User'' None None)))) sampleRef
             [SetOpen True, Render, SetOpen False, SetOpen True, Render]
             (run (Some (\<lambda>ref. Inr (Some (sampleEntity ''User'' None None)))) sampleRef
                [SetOpen True, Render, Settle 1, SetOpen False] mount)) = 1"
proof -
  have c: "cached (run (Some (\<lambda>ref. Inr (Some (sampleEntity ''User'' None None)))) sampleRef
             [SetOpen True, Render, Settle 1, SetOpen False] mount)"
    by (simp add: run_defs)
  have l: "lookups (run (Some (\<lambda>ref. Inr (Some (sampleEntity ''User'' None None)))) sampleRef
             [SetOpen True, Render, Settle 1, SetOpen False] mount) = 1"
    by (simp add: run_defs)
  show ?thesis
    using c l single_lookup_per_mount
      [of "Some (\<lambda>ref. Inr (Some (sampleEntity ''User'' None None)))" sampleRef
        "[SetOpen True, Render, Settle 1, SetOpen False]" Render mount
        "\<lambda>ref. Inr (Some (sampleEntity ''User'' None None))"
        "[SetOpen True, Render, SetOpen False, SetOpen True, Render]"]
    by simp
qed

text \<open>
  C5. With a catalog client whose lookup of the reference resolves empty, in any reached
  state where the effect's guard holds, the effect's fetch settles to the Failed state:
  not loading, no entity, and the error \<open>Error("<name> was not found")\<close> built from the
  reference's name.
\<close>

theorem empty_lookup_is_not_found:
  assumes "getEntityByRef r = Inr None"
    and "s = run (Some getEntityByRef) r evs mount"
    and "fetchGuard s"
  shows "state (run (Some getEntityByRef) r [Render, Settle (Suc (lastCallId s))] s)
         = \<lparr>loading = False, error = Some (Error (ref_name r @ '' was not found'')), value = None\<rparr>"
proof -
  have "fetch_invariant (Some getEntityByRef) r s"
    unfolding assms(2) by (rule fetch_invariant_run [OF fetch_invariant_mount])
  then have "pending s = []" using assms(3) by (rule guard_nothing_pending)
  moreover have "loadEntity (Some getEntityByRef) r = Inl (Error (ref_name r @ '' was not found''))"
    using assms(1) by (simp add: loadEntity_def)
  ultimately show ?thesis using assms(3) by (simp add: dispatch_then_settle del: run.simps)
qed

theorem empty_lookup_is_not_found_witness:
  "state (run (Some (\<lambda>ref. Inr None)) sampleRef [SetOpen True, Render, Settle 1] mount)
     = \<lparr>loading = False, error = Some (Error ''missing was not found''), value = None\<rparr>"
proof -
  have h1: "(\<lambda>ref. Inr None :: js_error + entity option) sampleRef = Inr None" by simp
  have h3: "fetchGuard (run (Some (\<lambda>ref. Inr None)) sampleRef [SetOpen True] mount)"
    by (simp add: run_defs)
  have l: "lastCallId (run (Some (\<lambda>ref. Inr None)) sampleRef [SetOpen True] mount) = 0"
    by (simp add: run_defs)
  show ?thesis
    using empty_lookup_is_not_found
      [of "\<lambda>ref. Inr None" sampleRef _ "[SetOpen True]", OF h1 refl h3] l
    by (simp add: sampleRef_def)
qed

text \<open>
  C10. Without a catalog client the fetch resolves to \<open>undefined\<close> and leaves neither an
  entity nor an error. After opening the popover and any number \<open>n\<close> of rounds in which the
  effect runs and its promise settles, \<open>load\<close> has been called \<open>n\<close> times, no lookup was
  made, the state is again the initial one with the guard satisfied, and the next effect
  run calls \<open>load\<close> once more: the number of dispatches never settles.
\<close>

theorem no_client_redispatches:
  "run None r (SetOpen True # renderCycles 0 n) mount
     = mount\<lparr>isOpen := True, lastCallId := n, dispatches := n\<rparr>
   \<and> fetchGuard (run None r (SetOpen True # renderCycles 0 n) mount)
   \<and> lookups (run None r (SetOpen True # renderCycles 0 n) mount) = 0
   \<and> dispatches (step None r Render (run None r (SetOpen True # renderCycles 0 n) mount))
       = Suc n"
proof -
  let ?s = "mount\<lparr>isOpen := True\<rparr>"
  have g: "fetchGuard ?s" "pending ?s = []" "lastCallId ?s = 0"
    by (simp_all add: fetchGuard_def mount_def)
  have "run None r (renderCycles 0 n) ?s = ?s\<lparr>lastCallId := n, dispatches := n\<rparr>"
    using no_client_cycles [OF g(1,2), of r n] by (simp add: mount_def)
  then show ?thesis
    by (simp add: fetchGuard_def mount_def effect_def load_def Let_def)
qed

theorem no_client_redispatches_witness:
  "dispatches (run None sampleRef
                 [SetOpen True, Render, Settle 1, Render, Settle 2, Render, Settle 3] mount) = 3
   \<and> lookups (run None sampleRef
                 [SetOpen True, Render, Settle 1, Render, Settle 2, Render, Settle 3] mount) = 0
   \<and> fetchGuard (run None sampleRef
                 [SetOpen True, Render, Settle 1, Render, Settle 2, Render, Settle 3] mount)"
proof -
  have e: "SetOpen True # renderCycles 0 3
           = [SetOpen True, Render, Settle 1, Render, Settle 2, Render, Settle 3]"
    by (simp add: numeral_3_eq_3)
  show ?thesis
    using no_client_redispatches [of sampleRef 3] unfolding e
    by (simp add: mount_def fetchGuard_def del: run.simps)
qed

section \<open>The rendered popover\<close>

lemma render_without_entity:
  "PeekAheadPopover b r \<lparr>loading = False, error = Some e, value = None\<rparr>
     = Inr (HoverPopover b
             [Card [CardContent [Typography (Some (ref_namespace r)), Typography (Some (ref_name r)),
                                 Alert (message e),
                                 Skeleton (Some ''30%''), Skeleton None, Skeleton (Some ''50%''),
                                 Skeleton (Some ''20%'')],
                    CardActions [Tooltip ''Show details'' (Link r)]]])"
  by (simp add: PeekAheadPopover_def cardActions_def emailAction_def cardContent_def
      errorAlert_def js_and_def)

lemma emailAction_cases:
  "emailAction (Some e) =
     (if \<not> (isUserEntity e \<or> isGroupEntity e) then Inr (JsBool False)
      else case spec e of
             None \<Rightarrow> Inl (TypeError ''Cannot read properties of undefined'')
           | Some sp \<Rightarrow>
               (case profile sp of
                  None \<Rightarrow> Inr JsUndefined
                | Some p \<Rightarrow>
                    (case email p of
                       None \<Rightarrow> Inr JsUndefined
                     | Some a \<Rightarrow>
                         if a = [] then Inr (JsString [])
                         else Inr (JsElement (Tooltip (''Email '' @ a) (Button (''mailto:'' @ a)))))))"
  by (simp add: emailAction_def profileEmail_def emailButton_def js_and_def split: option.splits)

text \<open>
  C8. When the lookup rejects with an error \<open>e\<close> (a transport error), or resolves empty
  so that \<open>e\<close> is the synthesized not-found error, the fetch started in a reached state
  settles to the Failed state holding \<open>e\<close>; rendering the popover in that state does not
  throw and shows the warning \<open>Alert\<close> with \<open>e\<close>'s message below the headline. A reference
  string on which the parser throws makes \<open>EntityRefLink\<close> itself throw that error: nothing
  in the component catches it.
\<close>

theorem fetch_errors_stored_parse_error_thrown:
  assumes "getEntityByRef r = Inl e
           \<or> (getEntityByRef r = Inr None \<and> e = Error (ref_name r @ '' was not found''))"
    and "s = run (Some getEntityByRef) r evs mount"
    and "fetchGuard s"
    and "parse str = Inl pe"
  shows "state (run (Some getEntityByRef) r [Render, Settle (Suc (lastCallId s))] s)
           = \<lparr>loading = False, error = Some e, value = None\<rparr>
         \<and> PeekAheadPopover b r \<lparr>loading = False, error = Some e, value = None\<rparr>
           = Inr (HoverPopover b
                   [Card [CardContent [Typography (Some (ref_namespace r)),
                                       Typography (Some (ref_name r)),
                                       Alert (message e),
                                       Skeleton (Some ''30%''), Skeleton None,
                                       Skeleton (Some ''50%''), Skeleton (Some ''20%'')],
                          CardActions [Tooltip ''Show details'' (Link r)]]])
         \<and> EntityRefLink parse (RefString str) b st = Inl pe"
proof -
  have "fetch_invariant (Some getEntityByRef) r s"
    unfolding assms(2) by (rule fetch_invariant_run [OF fetch_invariant_mount])
  then have "pending s = []" using assms(3) by (rule guard_nothing_pending)
  moreover have "loadEntity (Some getEntityByRef) r = Inl e"
    using assms(1) by (auto simp: loadEntity_def)
  ultimately have "state (run (Some getEntityByRef) r [Render, Settle (Suc (lastCallId s))] s)
           = \<lparr>loading = False, error = Some e, value = None\<rparr>"
    using assms(3) by (simp add: dispatch_then_settle del: run.simps)
  moreover have "EntityRefLink parse (RefString str) b st = Inl pe"
    using assms(4) by (simp add: EntityRefLink_def routeParams_def EntityRefLink_fields_def)
  ultimately show ?thesis using render_without_entity [of b r e] by simp
qed

theorem fetch_errors_stored_parse_error_thrown_witness:
  "state (run (Some (\<lambda>ref. Inl (Error ''503 Service Unavailable''))) sampleRef
            [SetOpen True, Render, Settle 1] mount)
     = \<lparr>loading = False, error = Some (Error ''503 Service Unavailable''), value = None\<rparr>
   \<and> PeekAheadPopover True sampleRef
        \<lparr>loading = False, error = Some (Error ''503 Service Unavailable''), value = None\<rparr>
     = Inr (HoverPopover True
             [Card [CardContent [Typography (Some ''default''), Typography (Some ''missing''),
                                 Alert ''503 Service Unavailable'',
                                 Skeleton (Some ''30%''), Skeleton None,
                                 Skeleton (Some ''50%''), Skeleton (Some ''20%'')],
                    CardActions [Tooltip ''Show details'' (Link sampleRef)]]])
   \<and> EntityRefLink parseEntityRef (RefString ''component:/missing'') True
        \<lparr>loading = False, error = None, value = None\<rparr>
     = Inl (ParseError ''component:/missing'')"
proof -
  let ?api = "\<lambda>ref :: compound_ref.
                Inl (Error ''503 Service Unavailable'') :: js_error + entity option"
  have h1: "?api sampleRef = Inl (Error ''503 Service Unavailable'')
            \<or> (?api sampleRef = Inr None
                \<and> Error ''503 Service Unavailable'' = Error (ref_name sampleRef @ '' was not found''))"
    by simp
  have h3: "fetchGuard (run (Some ?api) sampleRef [SetOpen True] mount)"
    by (simp add: run_defs)
  have l: "lastCallId (run (Some ?api) sampleRef [SetOpen True] mount) = 0"
    by (simp add: run_defs)
  show ?thesis
    using fetch_errors_stored_parse_error_thrown
      [of ?api sampleRef "Error ''503 Service Unavailable''" _ "[SetOpen True]"
        parseEntityRef "''component:/missing''" "ParseError ''component:/missing''" True
        "\<lparr>loading = False, error = None, value = None\<rparr>",
        OF h1 refl h3 parseEntityRef_malformed] l
    by (simp add: sampleRef_def)
qed

text \<open>
  C6. For a loaded entity the action row is the mail action for \<open>mailto:m\<close> followed by
  "Show details" exactly when the entity is classified as a user or a group and its
  \<open>spec.profile.email\<close> is present with the value \<open>m\<close>, present as the guard's \<open>&&\<close> tests it:
  a non-empty string. An entity that is neither a user nor a group gets the "Show details"
  action alone, whatever its profile holds, and the kind "resource" is neither.
\<close>

theorem mail_action_iff_person_with_email:
  assumes "value st = Some e"
  shows "(cardActions r st
            = Inr (CardActions [Tooltip (''Email '' @ m) (Button (''mailto:'' @ m)),
                                Tooltip ''Show details'' (Link r)]))
         = ((isUserEntity e \<or> isGroupEntity e)
            \<and> (\<exists>sp p. spec e = Some sp \<and> profile sp = Some p \<and> email p = Some m) \<and> m \<noteq> [])
         \<and> (\<not> (isUserEntity e \<or> isGroupEntity e) \<longrightarrow>
              cardActions r st = Inr (CardActions [Tooltip ''Show details'' (Link r)]))
         \<and> (kind e = ''resource'' \<longrightarrow> \<not> (isUserEntity e \<or> isGroupEntity e))"
proof -
  have res: "kind e = ''resource'' \<longrightarrow> \<not> (isUserEntity e \<or> isGroupEntity e)"
    by (simp add: isUserEntity_def isGroupEntity_def toLocaleLowerCase_def lowerCaseChar_def)
  show ?thesis
    using assms res
    by (auto simp: cardActions_def emailAction_cases split: option.splits)
qed

theorem mail_action_iff_person_with_email_witness:
  "cardActions sampleRef
     \<lparr>loading = False, error = None,
      value = Some (sampleEntity ''User'' None (Some ''a@b.com''))\<rparr>
     = Inr (CardActions [Tooltip ''Email a@b.com'' (Button ''mailto:a@b.com''),
                         Tooltip ''Show details'' (Link sampleRef)])
   \<and> cardActions sampleRef
     \<lparr>loading = False, error = None,
      value = Some (sampleEntity ''resource'' None (Some ''a@b.com''))\<rparr>
     = Inr (CardActions [Tooltip ''Show details'' (Link sampleRef)])"
proof -
  have u: "isUserEntity (sampleEntity ''User'' None (Some ''a@b.com''))"
    by (simp add: isUserEntity_def sampleEntity_def toLocaleLowerCase_def lowerCaseChar_def)
  have k: "kind (sampleEntity ''resource'' None (Some ''a@b.com'')) = ''resource''"
    by (simp add: sampleEntity_def)
  have m: "\<exists>sp p. spec (sampleEntity ''User'' None (Some ''a@b.com'')) = Some sp
             \<and> profile sp = Some p \<and> email p = Some ''a@b.com''"
    by (simp add: sampleEntity_def)
  show ?thesis
    using mail_action_iff_person_with_email
            [of "\<lparr>loading = False, error = None,
                  value = Some (sampleEntity ''User'' None (Some ''a@b.com''))\<rparr>"
                "sampleEntity ''User'' None (Some ''a@b.com'')" sampleRef "''a@b.com''"]
          mail_action_iff_person_with_email
            [of "\<lparr>loading = False, error = None,
                  value = Some (sampleEntity ''resource'' None (Some ''a@b.com''))\<rparr>"
                "sampleEntity ''resource'' None (Some ''a@b.com'')" sampleRef "''a@b.com''"]
          u k m
    by simp
qed

text \<open>
  C7. For a loaded entity with the tag list \<open>ts\<close>, the chip box holds one chip for each of
  the first four tags, so \<open>min (length ts) 4\<close> tag chips, and the overflow chip "..." in its
  tooltip is among the box's children exactly when there are more than four tags.
\<close>

theorem tag_chips_capped:
  assumes "tags (metadata e) = Some ts"
  shows "tagChips e = map Chip (take 4 ts)
         \<and> chipBox e = tagChips e @ renderChild (overflowChip e)
         \<and> length (filter isChip (chipBox e)) = min (length ts) 4
         \<and> (Tooltip ''Drill into the entity to see all of the tags.'' (Chip ''...'')
              \<in> set (chipBox e))
             = (4 < length ts)"
proof -
  have tc: "tagChips e = map Chip (take 4 ts)"
    using assms by (simp add: tagChips_def maxTagChips_def nullish_or_def)
  have f: "filter isChip (map Chip xs) = map Chip xs" for xs
    by (induction xs) simp_all
  have ov: "renderChild (overflowChip e)
             = (if 4 < length ts
                then [Tooltip ''Drill into the entity to see all of the tags.'' (Chip ''...'')]
                else if ts = [] then [TextNode ''0''] else [])"
    using assms by (auto simp: overflowChip_def tagsLength_def js_and_def maxTagChips_def)
  show ?thesis
    using tc ov f [of "take 4 ts"] by (auto simp: chipBox_def)
qed

theorem tag_chips_capped_witness:
  "chipBox (sampleEntity ''Component'' (Some [''a'', ''b'', ''c'', ''d'', ''e'', ''f'']) None)
     = [Chip ''a'', Chip ''b'', Chip ''c'', Chip ''d'',
        Tooltip ''Drill into the entity to see all of the tags.'' (Chip ''...'')]
   \<and> chipBox (sampleEntity ''Component'' (Some [''a'', ''b'', ''c'']) None)
     = [Chip ''a'', Chip ''b'', Chip ''c'']"
proof -
  have t6: "tags (metadata (sampleEntity ''Component''
                              (Some [''a'', ''b'', ''c'', ''d'', ''e'', ''f'']) None))
            = Some [''a'', ''b'', ''c'', ''d'', ''e'', ''f'']"
    by (simp add: sampleEntity_def)
  have t3: "tags (metadata (sampleEntity ''Component'' (Some [''a'', ''b'', ''c'']) None))
            = Some [''a'', ''b'', ''c'']"
    by (simp add: sampleEntity_def)
  have o6: "renderChild (overflowChip (sampleEntity ''Component''
                                         (Some [''a'', ''b'', ''c'', ''d'', ''e'', ''f'']) None))
            = [Tooltip ''Drill into the entity to see all of the tags.'' (Chip ''...'')]"
    by (simp add: sampleEntity_def overflowChip_def tagsLength_def js_and_def maxTagChips_def)
  have o3: "renderChild (overflowChip (sampleEntity ''Component''
                                         (Some [''a'', ''b'', ''c'']) None)) = []"
    by (simp add: sampleEntity_def overflowChip_def tagsLength_def js_and_def maxTagChips_def)
  show ?thesis
    using tag_chips_capped [OF t6] tag_chips_capped [OF t3] o6 o3 by simp
qed

text \<open>
  C9. For a loaded entity whose tag list is present and empty, the overflow guard
  evaluates to the number 0, not to \<open>false\<close>, and the chip box renders as the single text
  node "0" with no chip.
\<close>

theorem empty_tag_list_renders_zero:
  assumes "tags (metadata e) = Some []"
  shows "overflowChip e = JsNumber 0 \<and> chipBox e = [TextNode ''0'']"
  using assms
  by (simp add: chipBox_def tagChips_def overflowChip_def tagsLength_def js_and_def nullish_or_def)

theorem empty_tag_list_renders_zero_witness:
  "chipBox (sampleEntity ''Component'' (Some []) None) = [TextNode ''0'']"
proof -
  have t: "tags (metadata (sampleEntity ''Component'' (Some []) None)) = Some []"
    by (simp add: sampleEntity_def)
  show ?thesis using empty_tag_list_renders_zero [OF t] by simp
qed

end
